theory Spec2Isabelle
  imports Complex_Main
begin

section \<open>Data model (types.ts)\<close>

text \<open>
  JavaScript numbers are modelled as real numbers: the development is about the
  arithmetic the code writes down, not about rounding.
\<close>

datatype TreeState = SCATTERED | TREE_SHAPE

datatype HandGesture = NONE | OPEN | CLOSED | ONE

text \<open>
  \<open>HandData\<close> of types.ts. The \<open>position\<close> object \<open>{x, y}\<close> is a pair.
\<close>

record HandData =
  gesture :: HandGesture
  position :: "real \<times> real"
  isDetected :: bool

text \<open>
  A landmark of the hand detector: an object with the numeric fields \<open>x\<close>, \<open>y\<close>,
  \<open>z\<close> (named \<open>lx\<close>, \<open>ly\<close>, \<open>lz\<close> here, so that \<open>x\<close> and \<open>y\<close> stay variables).
\<close>

record Landmark =
  lx :: real
  ly :: real
  lz :: real

definition pt :: "real \<Rightarrow> real \<Rightarrow> Landmark" where
  "pt a b = \<lparr>lx = a, ly = b, lz = 0\<rparr>"

text \<open>
  The landmark set of the data model: 21 points; \<open>inImage\<close> says that they lie in the
  normalized image square.
\<close>

definition wellFormed :: "Landmark list \<Rightarrow> bool" where
  "wellFormed landmarks = (length landmarks = 21)"

definition inImage :: "Landmark list \<Rightarrow> bool" where
  "inImage landmarks =
     list_all (\<lambda>p. 0 \<le> lx p \<and> lx p \<le> 1 \<and> 0 \<le> ly p \<and> ly p \<le> 1) landmarks"

section \<open>Gesture classifier (HandTracker, \<open>predictWebcam\<close>)\<close>

text \<open>\<open>Math.hypot\<close> of two arguments.\<close>

definition hypot :: "real \<Rightarrow> real \<Rightarrow> real" where
  "hypot a b = sqrt (a * a + b * b)"

text \<open>
  \<open>isExtended(tipIdx, baseIdx)\<close>: the closure reads \<open>landmarks\<close> and
  \<open>wrist = landmarks[0]\<close>. Reading \<open>.x\<close> of an index that is not there throws a
  TypeError: the result \<open>None\<close>.
\<close>

definition isExtended :: "Landmark list \<Rightarrow> nat \<Rightarrow> nat \<Rightarrow> bool option" where
  "isExtended landmarks tipIdx baseIdx =
     (if 0 < length landmarks \<and> tipIdx < length landmarks \<and> baseIdx < length landmarks
      then
        let wrist = landmarks ! 0;
            dTip = hypot (lx (landmarks ! tipIdx) - lx wrist) (ly (landmarks ! tipIdx) - ly wrist);
            dBase = hypot (lx (landmarks ! baseIdx) - lx wrist) (ly (landmarks ! baseIdx) - ly wrist)
        in Some (dTip > dBase)
      else None)"

text \<open>
  The three tests of the \<open>if\<close> / \<open>else if\<close> chain, each as the source writes it, from
  the five extension flags.
\<close>

definition mainFingersOpenCount :: "bool \<Rightarrow> bool \<Rightarrow> bool \<Rightarrow> bool \<Rightarrow> nat" where
  "mainFingersOpenCount indexOpen middleOpen ringOpen pinkyOpen =
     length (filter (\<lambda>b. b) [indexOpen, middleOpen, ringOpen, pinkyOpen])"

definition totalOpenCount :: "bool \<Rightarrow> bool \<Rightarrow> bool \<Rightarrow> bool \<Rightarrow> bool \<Rightarrow> nat" where
  "totalOpenCount thumbOpen indexOpen middleOpen ringOpen pinkyOpen =
     mainFingersOpenCount indexOpen middleOpen ringOpen pinkyOpen + (if thumbOpen then 1 else 0)"

definition condONE :: "bool \<Rightarrow> bool \<Rightarrow> bool \<Rightarrow> bool \<Rightarrow> bool \<Rightarrow> bool" where
  "condONE thumbOpen indexOpen middleOpen ringOpen pinkyOpen =
     (indexOpen \<and> \<not> middleOpen \<and> \<not> ringOpen \<and> \<not> pinkyOpen)"

definition condOPEN :: "bool \<Rightarrow> bool \<Rightarrow> bool \<Rightarrow> bool \<Rightarrow> bool \<Rightarrow> bool" where
  "condOPEN thumbOpen indexOpen middleOpen ringOpen pinkyOpen =
     (totalOpenCount thumbOpen indexOpen middleOpen ringOpen pinkyOpen \<ge> 4)"

definition condCLOSED :: "bool \<Rightarrow> bool \<Rightarrow> bool \<Rightarrow> bool \<Rightarrow> bool \<Rightarrow> bool" where
  "condCLOSED thumbOpen indexOpen middleOpen ringOpen pinkyOpen =
     (totalOpenCount thumbOpen indexOpen middleOpen ringOpen pinkyOpen \<le> 1 \<and> \<not> indexOpen)"

text \<open>
  The chain itself; \<open>gesture\<close> starts as \<open>NONE\<close> and stays so when no branch is taken.
\<close>

definition classify :: "bool \<Rightarrow> bool \<Rightarrow> bool \<Rightarrow> bool \<Rightarrow> bool \<Rightarrow> HandGesture" where
  "classify thumbOpen indexOpen middleOpen ringOpen pinkyOpen =
     (if condONE thumbOpen indexOpen middleOpen ringOpen pinkyOpen then ONE
      else if condOPEN thumbOpen indexOpen middleOpen ringOpen pinkyOpen then OPEN
      else if condCLOSED thumbOpen indexOpen middleOpen ringOpen pinkyOpen then CLOSED
      else NONE)"

text \<open>
  The sample that one processed video frame hands to the callback, from the detector's
  \<open>results.landmarks\<close> (a list of hands, each a list of landmarks). \<open>None\<close> is the
  TypeError of a hand with too few landmarks: no sample is emitted then.
\<close>

definition handSample :: "Landmark list list \<Rightarrow> HandData option" where
  "handSample results =
     (case results of
        [] \<Rightarrow> Some \<lparr>gesture = NONE, position = (0, 0), isDetected = False\<rparr>
      | landmarks # _ \<Rightarrow>
          if landmarks = [] then None
          else
            let wrist = landmarks ! 0;
                palmX = 1.0 - lx (landmarks ! 0);
                palmY = ly (landmarks ! 0);
                pos = ((palmX - 0.5) * 2, (palmY - 0.5) * 2)
            in Option.bind (isExtended landmarks 4 2) (\<lambda>thumbOpen.
               Option.bind (isExtended landmarks 8 6) (\<lambda>indexOpen.
               Option.bind (isExtended landmarks 12 10) (\<lambda>middleOpen.
               Option.bind (isExtended landmarks 16 14) (\<lambda>ringOpen.
               Option.bind (isExtended landmarks 20 18) (\<lambda>pinkyOpen.
                 Some \<lparr>gesture = classify thumbOpen indexOpen middleOpen ringOpen pinkyOpen,
                       position = pos, isDetected = True\<rparr>))))))"

text \<open>
  A hand given by the vertical offsets of the five tips and bases above a wrist at
  \<open>(wx, wy)\<close>: landmark \<open>i\<close> of the list is the point the detector numbers \<open>i\<close>.
\<close>

definition hand :: "real \<Rightarrow> real \<Rightarrow> real \<Rightarrow> real \<Rightarrow> real \<Rightarrow> real \<Rightarrow> real \<Rightarrow> Landmark list" where
  "hand wx wy thumbTip indexTip middleTip ringTip pinkyTip =
     [pt wx wy,
      pt wx (wy - 0.1), pt wx (wy - 0.2), pt wx (wy - 0.25), pt wx (wy - thumbTip),
      pt wx (wy - 0.2), pt wx (wy - 0.3), pt wx (wy - 0.35), pt wx (wy - indexTip),
      pt wx (wy - 0.2), pt wx (wy - 0.3), pt wx (wy - 0.35), pt wx (wy - middleTip),
      pt wx (wy - 0.2), pt wx (wy - 0.3), pt wx (wy - 0.35), pt wx (wy - ringTip),
      pt wx (wy - 0.2), pt wx (wy - 0.3), pt wx (wy - 0.35), pt wx (wy - pinkyTip)]"

text \<open>
  The branches of the chain as a list of (test, label) pairs, and a chain that tests the
  pairs of any such list in the list's order; \<open>classify\<close> is the chain over
  \<open>branches\<close>.
\<close>

definition branches :: "bool \<Rightarrow> bool \<Rightarrow> bool \<Rightarrow> bool \<Rightarrow> bool \<Rightarrow> (bool \<times> HandGesture) list" where
  "branches thumbOpen indexOpen middleOpen ringOpen pinkyOpen =
     [(condONE thumbOpen indexOpen middleOpen ringOpen pinkyOpen, ONE),
      (condOPEN thumbOpen indexOpen middleOpen ringOpen pinkyOpen, OPEN),
      (condCLOSED thumbOpen indexOpen middleOpen ringOpen pinkyOpen, CLOSED)]"

fun firstMatch :: "(bool \<times> HandGesture) list \<Rightarrow> HandGesture" where
  "firstMatch [] = NONE"
| "firstMatch ((c, g) # bs) = (if c then g else firstMatch bs)"

section \<open>Scene state machine (App.tsx, \<open>handleHandUpdate\<close>)\<close>

text \<open>
  The state of \<open>App\<close> that the callback reads: \<open>audioRef\<close> says whether
  \<open>audioRef.current\<close> is set.
\<close>

record App =
  treeState :: TreeState
  handData :: HandData
  isMusicOn :: bool
  audioRef :: bool
  currentMusicSrc :: string

text \<open>\<open>useState\<close>'s initial values; the audio element is created by the first effect.\<close>

definition initialApp :: App where
  "initialApp = \<lparr>treeState = SCATTERED,
     handData = \<lparr>gesture = NONE, position = (0, 0), isDetected = False\<rparr>,
     isMusicOn = False, audioRef = True, currentMusicSrc = []\<rparr>"

text \<open>
  What the callback does is a sequence of calls: the state setters and
  \<open>audioRef.current.play()\<close>.
\<close>

datatype Effect = SetHandData HandData | SetTreeState TreeState | PlayAudio

definition ensureMusic :: "App \<Rightarrow> Effect list" where
  "ensureMusic app =
     (if \<not> isMusicOn app \<and> audioRef app \<and> currentMusicSrc app \<noteq> [] then [PlayAudio] else [])"

definition handleHandUpdate :: "App \<Rightarrow> HandData \<Rightarrow> Effect list" where
  "handleHandUpdate app data =
     SetHandData data #
     (if gesture data = OPEN then
        (if treeState app \<noteq> SCATTERED then SetTreeState SCATTERED # ensureMusic app else [])
      else if gesture data = CLOSED then
        (if treeState app \<noteq> TREE_SHAPE then SetTreeState TREE_SHAPE # ensureMusic app else [])
      else [])"

text \<open>
  The setters store their argument. \<open>play()\<close> only starts a promise; \<open>isMusicOn\<close> is
  set when (and if) it resolves, which is not part of this callback.
\<close>

fun applyEffect :: "App \<Rightarrow> Effect \<Rightarrow> App" where
  "applyEffect app (SetHandData d) = app\<lparr>handData := d\<rparr>"
| "applyEffect app (SetTreeState s) = app\<lparr>treeState := s\<rparr>"
| "applyEffect app PlayAudio = app"

definition onSample :: "App \<Rightarrow> HandData \<Rightarrow> App" where
  "onSample app data = foldl applyEffect app (handleHandUpdate app data)"

text \<open>
  Feeding the samples of consecutive frames, each handled in the state the previous one
  left: the final state and every call made on the way.
\<close>

fun feed :: "App \<Rightarrow> HandData list \<Rightarrow> App \<times> Effect list" where
  "feed app [] = (app, [])"
| "feed app (d # ds) =
     (let (app', es) = feed (onSample app d) ds in (app', handleHandUpdate app d @ es))"

fun isTransition :: "Effect \<Rightarrow> bool" where
  "isTransition (SetTreeState _) = True"
| "isTransition _ = False"

definition transitions :: "Effect list \<Rightarrow> nat" where
  "transitions es = length (filter isTransition es)"

section \<open>Transition controller of the foliage (Foliage.tsx)\<close>

text \<open>
  The body of \<open>useFrame\<close> on \<open>progressRef.current\<close>: the new progress from the scene
  state, the frame's \<open>delta\<close> and the old progress.
\<close>

definition foliageStep :: "TreeState \<Rightarrow> real \<Rightarrow> real \<Rightarrow> real" where
  "foliageStep ts delta progress =
     (let target = (if ts = TREE_SHAPE then 1 else 0);
          speed = 1.5
      in if \<bar>progress - target\<bar> > 0.001 then
           let direction = (if target > progress then 1 else - 1);
               p1 = progress + direction * delta * speed;
               p2 = (if direction = 1 \<and> p1 > 1 then 1 else p1);
               p3 = (if direction = - 1 \<and> p2 < 0 then 0 else p2)
           in p3
         else progress)"

record FoliageRefs =
  progressRef :: real
  uTime :: real
  uProgress :: real

text \<open>
  \<open>useFrame\<close> itself; \<open>shaderRef\<close> says whether \<open>shaderRef.current\<close> is set.
\<close>

definition foliageUseFrame :: "bool \<Rightarrow> TreeState \<Rightarrow> real \<Rightarrow> real \<Rightarrow> FoliageRefs \<Rightarrow> FoliageRefs" where
  "foliageUseFrame shaderRef ts elapsedTime delta refs =
     (if shaderRef then
        let p = foliageStep ts delta (progressRef refs)
        in \<lparr>progressRef = p, uTime = elapsedTime, uProgress = p\<rparr>
      else refs)"

definition foliageRun :: "TreeState \<Rightarrow> real list \<Rightarrow> real \<Rightarrow> real" where
  "foliageRun ts deltas progress = foldl (\<lambda>p delta. foliageStep ts delta p) progress deltas"

text \<open>
  The vertex shader. GLSL's \<open>pow\<close> is \<open>powr\<close> (undefined for a negative base, as
  \<open>powr\<close> is unspecified there); \<open>mix(x, y, a)\<close> is \<open>x * (1 - a) + y * a\<close>.
\<close>

definition pow :: "real \<Rightarrow> real \<Rightarrow> real" where
  "pow b e = b powr e"

definition easeInOutCubic :: "real \<Rightarrow> real" where
  "easeInOutCubic x =
     (if x < 0.5 then 4.0 * x * x * x else 1.0 - pow (- 2.0 * x + 2.0) 3.0 / 2.0)"

definition mix :: "real \<Rightarrow> real \<Rightarrow> real \<Rightarrow> real" where
  "mix a b t = a * (1 - t) + b * t"

type_synonym vec3 = "real \<times> real \<times> real"

definition mix3 :: "vec3 \<Rightarrow> vec3 \<Rightarrow> real \<Rightarrow> vec3" where
  "mix3 a b t =
     (case a of (ax, ay, az) \<Rightarrow> case b of (bx, by, bz) \<Rightarrow> (mix ax bx t, mix ay by t, mix az bz t))"

text \<open>\<open>vec3 pos = mix(aScatterPos, aTreePos, t)\<close> with \<open>t = easeInOutCubic(uProgress)\<close>.\<close>

definition foliageBlend :: "real \<Rightarrow> vec3 \<Rightarrow> vec3 \<Rightarrow> vec3" where
  "foliageBlend uProg aScatterPos aTreePos = mix3 aScatterPos aTreePos (easeInOutCubic uProg)"

text \<open>The position after the floating animation has been added.\<close>

definition foliagePos :: "real \<Rightarrow> real \<Rightarrow> vec3 \<Rightarrow> vec3 \<Rightarrow> real \<Rightarrow> vec3" where
  "foliagePos time uProg aScatterPos aTreePos aRandom =
     (let t = easeInOutCubic uProg;
          floatIntensity = mix 0.5 0.05 t;
          floatSpeed = mix 0.5 2.0 t
      in case mix3 aScatterPos aTreePos t of (px, py, pz) \<Rightarrow>
           (px + sin (time * floatSpeed + aRandom * 10.0) * floatIntensity,
            py + cos (time * floatSpeed * 0.8 + aRandom * 5.0) * floatIntensity,
            pz + sin (time * floatSpeed * 1.2 + aRandom * 15.0) * floatIntensity))"

section \<open>Transition controller of the ornaments (Ornaments)\<close>

definition ornamentsStep :: "TreeState \<Rightarrow> real \<Rightarrow> real \<Rightarrow> real" where
  "ornamentsStep ts delta animProgress =
     (let target = (if ts = TREE_SHAPE then 1 else 0);
          speed = 1.0;
          diff = target - animProgress
      in if \<bar>diff\<bar> > 0.001 then animProgress + diff * delta * speed else animProgress)"

definition ornamentsRun :: "TreeState \<Rightarrow> real list \<Rightarrow> real \<Rightarrow> real" where
  "ornamentsRun ts deltas progress = foldl (\<lambda>p delta. ornamentsStep ts delta p) progress deltas"

definition easeT :: "real \<Rightarrow> real" where
  "easeT t = (if t < 0.5 then 2 * t * t else - 1 + (4 - 2 * t) * t)"

text \<open>\<open>THREE.MathUtils.lerp(x, y, t)\<close> of three.js: \<open>(1 - t) * x + t * y\<close>.\<close>

definition lerp :: "real \<Rightarrow> real \<Rightarrow> real \<Rightarrow> real" where
  "lerp a b t = (1 - t) * a + t * b"

record DualPosition =
  tree :: vec3
  scatter :: vec3
  rotation :: vec3
  scale :: real
  speed :: real

text \<open>
  \<open>updateMesh\<close> for one entry: what \<open>tempObj.position.set\<close> and
  \<open>tempObj.rotation.set\<close> receive, from the frame's \<open>t = animProgress.current\<close> and
  \<open>time\<close>.
\<close>

definition ornamentPosition :: "DualPosition \<Rightarrow> real \<Rightarrow> vec3" where
  "ornamentPosition d t =
     (case scatter d of (s0, s1, s2) \<Rightarrow> case tree d of (t0, t1, t2) \<Rightarrow>
        (lerp s0 t0 (easeT t), lerp s1 t1 (easeT t), lerp s2 t2 (easeT t)))"

definition ornamentRotation :: "DualPosition \<Rightarrow> real \<Rightarrow> real \<Rightarrow> vec3" where
  "ornamentRotation d time t =
     (case rotation d of (r0, r1, r2) \<Rightarrow>
        (r0 + time * speed d * 0.2 * (1 - t),
         r1 + time * speed d * 0.5,
         r2 + time * speed d * 0.1 * (1 - t)))"

section \<open>The controller as the specification words it\<close>

text \<open>
  The update the specification describes, for a speed \<open>S\<close> and a target: nothing within
  \<open>0.001\<close> of the target, otherwise a step of \<open>sign(target - progress) * dt * S\<close>,
  clamped to \<open>[0, 1]\<close>; and its cubic ease-in-out.
\<close>

definition specStep :: "real \<Rightarrow> real \<Rightarrow> real \<Rightarrow> real \<Rightarrow> real" where
  "specStep S target dt progress =
     (if \<bar>target - progress\<bar> \<le> 0.001 then progress
      else max 0 (min 1 (progress + sgn (target - progress) * dt * S)))"

definition specEase :: "real \<Rightarrow> real" where
  "specEase t = (if t < 0.5 then 4 * t ^ 3 else 1 - (- 2 * t + 2) ^ 3 / 2)"

definition targetOf :: "TreeState \<Rightarrow> real" where
  "targetOf ts = (if ts = TREE_SHAPE then 1 else 0)"

section \<open>The hand tracker as an event machine (HandTracker)\<close>

text \<open>
  Every render of the component makes new \<open>startWebcam\<close>, \<open>stopWebcam\<close> and
  \<open>predictWebcam\<close> functions, which read the \<open>isEnabled\<close> of that render. A closure
  is the number of its render (its identity as a function object) and the \<open>isEnabled\<close>
  it captured.
\<close>

type_synonym closure = "nat \<times> bool"

text \<open>
  What the video element and the detector give \<open>predictWebcam\<close> on one call:
  \<open>videoWidth\<close>, \<open>currentTime\<close> and the \<open>results.landmarks\<close> that
  \<open>detectForVideo\<close> would return.
\<close>

record Frame =
  videoWidth :: nat
  currentTime :: real
  detected :: "Landmark list list"

text \<open>
  The refs of the component and the state of the browser that its functions act on:
  \<^item> \<open>handLandmarkerRef\<close>, \<open>streamRef\<close>: whether the ref is set;
  \<open>requestRef\<close>, \<open>lastVideoTimeRef\<close>: the ref's value;
  \<^item> \<open>srcObject\<close>: whether the video element has a stream;
  \<open>listeners\<close>: its \<open>loadeddata\<close> listeners;
  \<^item> \<open>scheduled\<close>: the animation frame callbacks requested and not yet run or
  cancelled, each with its handle; \<open>nextHandle\<close>: the handle the next request gets;
  \<^item> \<open>modelPending\<close>: the closure of \<open>initHandLandmarker\<close> while it awaits the
  model; \<open>cameraPending\<close>: the \<open>startWebcam\<close> calls that await \<open>getUserMedia\<close>;
  \<^item> \<open>rendered\<close>: the closure of the latest render;
  \<^item> \<open>emitted\<close>: the samples passed to \<open>onHandUpdateRef.current\<close>, oldest first.
\<close>

record Tracker =
  handLandmarkerRef :: bool
  streamRef :: bool
  requestRef :: nat
  lastVideoTimeRef :: real
  srcObject :: bool
  listeners :: "closure list"
  scheduled :: "(nat \<times> closure) list"
  nextHandle :: nat
  modelPending :: "closure option"
  cameraPending :: "closure list"
  rendered :: closure
  emitted :: "HandData list"

definition initialTracker :: Tracker where
  "initialTracker = \<lparr>handLandmarkerRef = False, streamRef = False, requestRef = 0,
     lastVideoTimeRef = - 1, srcObject = False, listeners = [], scheduled = [],
     nextHandle = 1, modelPending = None, cameraPending = [], rendered = (0, False),
     emitted = []\<rparr>"

definition resetSample :: HandData where
  "resetSample = \<lparr>gesture = NONE, position = (0, 0), isDetected = False\<rparr>"

text \<open>
  \<open>startWebcam\<close> up to its \<open>await\<close> (the browser has \<open>getUserMedia\<close>): nothing
  when a stream is there, otherwise a pending request.
\<close>

definition startWebcam :: "closure \<Rightarrow> Tracker \<Rightarrow> Tracker" where
  "startWebcam c st =
     (if streamRef st then st else st\<lparr>cameraPending := cameraPending st @ [c]\<rparr>)"

text \<open>
  The rest of \<open>startWebcam\<close>, when the oldest pending request is granted: the stream is
  stored and attached, and the closure's \<open>predictWebcam\<close> listens for \<open>loadeddata\<close>
  (a function that listens already is not added twice).
\<close>

definition streamGranted :: "Tracker \<Rightarrow> Tracker" where
  "streamGranted st =
     (case cameraPending st of
        [] \<Rightarrow> st
      | c # cs \<Rightarrow>
          st\<lparr>cameraPending := cs, streamRef := True, srcObject := True,
             listeners := (if c \<in> set (listeners st) then listeners st else listeners st @ [c])\<rparr>)"

text \<open>The request is refused: the \<open>catch\<close> only logs.\<close>

definition streamDenied :: "Tracker \<Rightarrow> Tracker" where
  "streamDenied st = st\<lparr>cameraPending := tl (cameraPending st)\<rparr>"

text \<open>
  \<open>stopWebcam\<close>: \<open>cancelAnimationFrame\<close> of the handle in \<open>requestRef\<close>, the stream
  stopped and forgotten, the video detached, and \<open>removeEventListener\<close> of this
  closure's own \<open>predictWebcam\<close>.
\<close>

definition stopWebcam :: "closure \<Rightarrow> Tracker \<Rightarrow> Tracker" where
  "stopWebcam c st =
     st\<lparr>scheduled :=
          (if requestRef st \<noteq> 0 then filter (\<lambda>(h, _). h \<noteq> requestRef st) (scheduled st)
           else scheduled st),
        streamRef := False, srcObject := False,
        listeners := removeAll c (listeners st)\<rparr>"

text \<open>
  \<open>predictWebcam\<close> of a closure on a frame: it returns at once unless the landmarker is
  there and the closure's \<open>isEnabled\<close> holds (the video element is always mounted). A
  hand with too few landmarks throws inside the function: no sample and no new request.
\<close>

definition predictWebcam :: "closure \<Rightarrow> Frame \<Rightarrow> Tracker \<Rightarrow> Tracker" where
  "predictWebcam c f st =
     (if handLandmarkerRef st \<and> snd c then
        let request = (\<lambda>s. s\<lparr>scheduled := scheduled s @ [(nextHandle s, c)],
                              requestRef := nextHandle s, nextHandle := nextHandle s + 1\<rparr>)
        in if videoWidth f > 0 \<and> currentTime f \<noteq> lastVideoTimeRef st then
             (case handSample (detected f) of
                None \<Rightarrow> st\<lparr>lastVideoTimeRef := currentTime f\<rparr>
              | Some sample \<Rightarrow>
                  request (st\<lparr>lastVideoTimeRef := currentTime f, emitted := emitted st @ [sample]\<rparr>))
           else request st
      else st)"

text \<open>
  The effect on \<open>[isEnabled]\<close>, run with the closures of the render that triggered it.
\<close>

definition enabledEffect :: "closure \<Rightarrow> Tracker \<Rightarrow> Tracker" where
  "enabledEffect c st =
     (if snd c then startWebcam c st
      else (let st' = stopWebcam c st in st'\<lparr>emitted := emitted st' @ [resetSample]\<rparr>))"

text \<open>
  The events, each one turn of the browser's event loop:
  \<^item> \<open>Mount b\<close>: the first render, with \<open>isEnabled = b\<close>: \<open>initHandLandmarker\<close> starts
  to await the model, then the \<open>[isEnabled]\<close> effect runs;
  \<^item> \<open>SetEnabled b\<close>: a render with \<open>isEnabled = b\<close>; the effect runs when the value
  changed;
  \<^item> \<open>ModelLoaded\<close>: \<open>initHandLandmarker\<close> resumes: the landmarker is stored and, under
  the \<open>isEnabled\<close> of its own closure, \<open>startWebcam\<close> is called;
  \<^item> \<open>StreamGranted\<close>, \<open>StreamDenied\<close>: the oldest \<open>getUserMedia\<close> request settles;
  \<^item> \<open>LoadedData f\<close>: the video, if it has a stream, fires \<open>loadeddata\<close>;
  \<^item> \<open>AnimationFrame f\<close>: the browser runs the callbacks requested so far.
\<close>

datatype Event =
  Mount bool | SetEnabled bool | ModelLoaded | StreamGranted | StreamDenied
  | LoadedData Frame | AnimationFrame Frame

fun step :: "Tracker \<Rightarrow> Event \<Rightarrow> Tracker" where
  "step st (Mount b) =
     enabledEffect (0, b) (st\<lparr>rendered := (0, b), modelPending := Some (0, b)\<rparr>)"
| "step st (SetEnabled b) =
     (let c = (fst (rendered st) + 1, b)
      in if b = snd (rendered st) then st\<lparr>rendered := c\<rparr>
         else enabledEffect c (st\<lparr>rendered := c\<rparr>))"
| "step st ModelLoaded =
     (case modelPending st of
        None \<Rightarrow> st
      | Some c \<Rightarrow>
          (let st' = st\<lparr>handLandmarkerRef := True, modelPending := None\<rparr>
           in if snd c then startWebcam c st' else st'))"
| "step st StreamGranted = streamGranted st"
| "step st StreamDenied = streamDenied st"
| "step st (LoadedData f) =
     (if srcObject st then foldl (\<lambda>s c. predictWebcam c f s) st (listeners st) else st)"
| "step st (AnimationFrame f) =
     foldl (\<lambda>s (h, c). predictWebcam c f s) (st\<lparr>scheduled := []\<rparr>) (scheduled st)"

definition run :: "Event list \<Rightarrow> Tracker" where
  "run events = foldl step initialTracker events"

text \<open>A frame that shows a fist, and one that shows no hand.\<close>

definition fistFrame :: "real \<Rightarrow> Frame" where
  "fistFrame time =
     \<lparr>videoWidth = 320, currentTime = time, detected = [hand 0.5 0.9 0.1 0.1 0.1 0.1 0.1]\<rparr>"

definition emptyFrame :: "real \<Rightarrow> Frame" where
  "emptyFrame time = \<lparr>videoWidth = 320, currentTime = time, detected = []\<rparr>"

text \<open>The sample of a frame that shows a fist.\<close>

definition fistSample :: HandData where
  "fistSample = \<lparr>gesture = CLOSED, position = (0, 0.8), isDetected = True\<rparr>"

section \<open>The classifier\<close>

lemma isExtended_wellFormed:
  assumes "wellFormed landmarks"
  shows "\<exists>thumbOpen indexOpen middleOpen ringOpen pinkyOpen.
     isExtended landmarks 4 2 = Some thumbOpen \<and> isExtended landmarks 8 6 = Some indexOpen \<and>
     isExtended landmarks 12 10 = Some middleOpen \<and> isExtended landmarks 16 14 = Some ringOpen \<and>
     isExtended landmarks 20 18 = Some pinkyOpen"
  using assms by (simp add: isExtended_def wellFormed_def Let_def)

text \<open>
  On a well-formed set the extension test compares the Euclidean distances, in the image
  plane, from the wrist to the tip and from the wrist to the base.
\<close>

lemma isExtended_distance:
  assumes "wellFormed landmarks" and "tipIdx \<le> 20" and "baseIdx \<le> 20"
  shows "isExtended landmarks tipIdx baseIdx =
     Some (sqrt ((lx (landmarks ! baseIdx) - lx (landmarks ! 0))\<^sup>2 +
                 (ly (landmarks ! baseIdx) - ly (landmarks ! 0))\<^sup>2)
         < sqrt ((lx (landmarks ! tipIdx) - lx (landmarks ! 0))\<^sup>2 +
                 (ly (landmarks ! tipIdx) - ly (landmarks ! 0))\<^sup>2))"
  using assms by (simp add: isExtended_def wellFormed_def hypot_def Let_def power2_eq_square)

lemma handSample_wellFormed:
  assumes wf: "wellFormed landmarks"
    and t: "isExtended landmarks 4 2 = Some thumbOpen"
    and i: "isExtended landmarks 8 6 = Some indexOpen"
    and m: "isExtended landmarks 12 10 = Some middleOpen"
    and r: "isExtended landmarks 16 14 = Some ringOpen"
    and p: "isExtended landmarks 20 18 = Some pinkyOpen"
  shows "handSample (landmarks # others) =
           Some \<lparr>gesture = classify thumbOpen indexOpen middleOpen ringOpen pinkyOpen,
                 position = ((1 - lx (landmarks ! 0) - 0.5) * 2, (ly (landmarks ! 0) - 0.5) * 2),
                 isDetected = True\<rparr>"
proof -
  from wf have "landmarks \<noteq> []" by (auto simp add: wellFormed_def)
  then show ?thesis
    by (simp add: handSample_def t i m r p Let_def)
qed

lemma conds_exclusive:
  "\<not> (condONE t i m r p \<and> condOPEN t i m r p)"
  "\<not> (condONE t i m r p \<and> condCLOSED t i m r p)"
  "\<not> (condOPEN t i m r p \<and> condCLOSED t i m r p)"
  by (auto simp add: condONE_def condOPEN_def condCLOSED_def totalOpenCount_def
      mainFingersOpenCount_def)

lemma classify_ONE: "condONE t i m r p \<Longrightarrow> classify t i m r p = ONE"
  by (simp add: classify_def)

lemma classify_OPEN: "condOPEN t i m r p \<Longrightarrow> classify t i m r p = OPEN"
  using conds_exclusive [of t i m r p] by (auto simp add: classify_def)

lemma classify_CLOSED: "condCLOSED t i m r p \<Longrightarrow> classify t i m r p = CLOSED"
  using conds_exclusive [of t i m r p] by (auto simp add: classify_def)

lemmas hand_eval =
  handSample_def isExtended_def hand_def pt_def hypot_def classify_def condONE_def
  condOPEN_def condCLOSED_def totalOpenCount_def mainFingersOpenCount_def

text \<open>
  C1, as the code has it: for every well-formed landmark set in which at most one of the
  five fingers, the thumb included, is extended and the index finger is not extended, the
  sample's gesture is \<open>CLOSED\<close>.
\<close>

theorem closed_rule:
  assumes "wellFormed landmarks"
    and "isExtended landmarks 4 2 = Some thumbOpen"
    and "isExtended landmarks 8 6 = Some indexOpen"
    and "isExtended landmarks 12 10 = Some middleOpen"
    and "isExtended landmarks 16 14 = Some ringOpen"
    and "isExtended landmarks 20 18 = Some pinkyOpen"
    and "totalOpenCount thumbOpen indexOpen middleOpen ringOpen pinkyOpen \<le> 1"
    and "\<not> indexOpen"
  shows "map_option gesture (handSample (landmarks # others)) = Some CLOSED"
proof -
  from assms(7,8) have "condCLOSED thumbOpen indexOpen middleOpen ringOpen pinkyOpen"
    by (simp add: condCLOSED_def)
  then have "classify thumbOpen indexOpen middleOpen ringOpen pinkyOpen = CLOSED"
    by (rule classify_CLOSED)
  with handSample_wellFormed [OF assms(1-6)] show ?thesis by simp
qed

text \<open>A hand with only the thumb extended.\<close>

theorem closed_rule_witness:
  "wellFormed (hand 0.5 0.9 0.4 0.1 0.1 0.1 0.1) \<and>
   totalOpenCount True False False False False \<le> 1 \<and>
   map_option gesture (handSample [hand 0.5 0.9 0.4 0.1 0.1 0.1 0.1]) = Some CLOSED"
proof -
  let ?h = "hand 0.5 0.9 0.4 0.1 0.1 0.1 0.1"
  have wf: "wellFormed ?h" by (simp add: wellFormed_def hand_def)
  have t: "isExtended ?h 4 2 = Some True" by (simp add: hand_eval)
  have i: "isExtended ?h 8 6 = Some False" by (simp add: hand_eval)
  have m: "isExtended ?h 12 10 = Some False" by (simp add: hand_eval)
  have r: "isExtended ?h 16 14 = Some False" by (simp add: hand_eval)
  have p: "isExtended ?h 20 18 = Some False" by (simp add: hand_eval)
  have c: "totalOpenCount True False False False False \<le> 1"
    by (simp add: totalOpenCount_def mainFingersOpenCount_def)
  have n: "\<not> False" by simp
  from closed_rule [OF wf t i m r p c n, of "[]"] wf c show ?thesis by simp
qed

text \<open>
  The claim as stated fails on a hand with the thumb and the middle finger extended: one
  of the four non-thumb fingers is extended, the index finger is not, and the gesture is
  \<open>NONE\<close>.
\<close>

theorem closed_rule_counterexample:
  "wellFormed (hand 0.5 0.9 0.4 0.1 0.4 0.1 0.1) \<and>
   inImage (hand 0.5 0.9 0.4 0.1 0.4 0.1 0.1) \<and>
   isExtended (hand 0.5 0.9 0.4 0.1 0.4 0.1 0.1) 4 2 = Some True \<and>
   isExtended (hand 0.5 0.9 0.4 0.1 0.4 0.1 0.1) 8 6 = Some False \<and>
   isExtended (hand 0.5 0.9 0.4 0.1 0.4 0.1 0.1) 12 10 = Some True \<and>
   isExtended (hand 0.5 0.9 0.4 0.1 0.4 0.1 0.1) 16 14 = Some False \<and>
   isExtended (hand 0.5 0.9 0.4 0.1 0.4 0.1 0.1) 20 18 = Some False \<and>
   mainFingersOpenCount False True False False = 1 \<and>
   map_option gesture (handSample [hand 0.5 0.9 0.4 0.1 0.4 0.1 0.1]) = Some NONE"
  by (simp add: hand_eval wellFormed_def inImage_def)

text \<open>
  C5: for every well-formed landmark set where the index finger passes the extension test
  for the pair (8, 6) and the middle, ring and pinky fingers fail theirs, the sample's
  gesture is \<open>ONE\<close>, whatever the thumb does; the test for \<open>ONE\<close> comes first in the
  chain, so it wins over \<open>OPEN\<close> and \<open>CLOSED\<close>.
\<close>

theorem one_rule:
  assumes "wellFormed landmarks"
    and "isExtended landmarks 8 6 = Some True"
    and "isExtended landmarks 12 10 = Some False"
    and "isExtended landmarks 16 14 = Some False"
    and "isExtended landmarks 20 18 = Some False"
  shows "map_option gesture (handSample (landmarks # others)) = Some ONE \<and>
         classify thumbOpen True False False False = ONE"
proof -
  from isExtended_wellFormed [OF assms(1)] obtain t where t: "isExtended landmarks 4 2 = Some t"
    by blast
  have "classify b True False False False = ONE" for b
    by (simp add: classify_ONE condONE_def)
  with handSample_wellFormed [OF assms(1) t assms(2-5)] show ?thesis by simp
qed

text \<open>A pointing hand with the thumb extended as well.\<close>

theorem one_rule_witness:
  "wellFormed (hand 0.5 0.9 0.4 0.5 0.1 0.1 0.1) \<and>
   isExtended (hand 0.5 0.9 0.4 0.5 0.1 0.1 0.1) 4 2 = Some True \<and>
   map_option gesture (handSample [hand 0.5 0.9 0.4 0.5 0.1 0.1 0.1]) = Some ONE"
proof -
  let ?h = "hand 0.5 0.9 0.4 0.5 0.1 0.1 0.1"
  have wf: "wellFormed ?h" by (simp add: wellFormed_def hand_def)
  have t: "isExtended ?h 4 2 = Some True" by (simp add: hand_eval)
  have i: "isExtended ?h 8 6 = Some True" by (simp add: hand_eval)
  have m: "isExtended ?h 12 10 = Some False" by (simp add: hand_eval)
  have r: "isExtended ?h 16 14 = Some False" by (simp add: hand_eval)
  have p: "isExtended ?h 20 18 = Some False" by (simp add: hand_eval)
  from one_rule [OF wf i m r p, of "[]"] wf t show ?thesis by simp
qed

text \<open>
  C8: for every detected hand (the first of the detector's hands, a well-formed landmark
  set) with wrist \<open>(x, y)\<close>, the sample is emitted with position
  \<open>((1 - x - 0.5) * 2, (y - 0.5) * 2)\<close>, whatever its gesture; a wrist at
  \<open>(0.5, 0.5)\<close> gives \<open>(0, 0)\<close>.
\<close>

theorem palm_position:
  assumes "wellFormed landmarks"
  shows "map_option position (handSample (landmarks # others)) =
           Some ((1 - lx (landmarks ! 0) - 0.5) * 2, (ly (landmarks ! 0) - 0.5) * 2) \<and>
         map_option isDetected (handSample (landmarks # others)) = Some True \<and>
         (lx (landmarks ! 0) = 0.5 \<and> ly (landmarks ! 0) = 0.5 \<longrightarrow>
            map_option position (handSample (landmarks # others)) = Some (0, 0))"
proof -
  from isExtended_wellFormed [OF assms] obtain t i m r p where
    "isExtended landmarks 4 2 = Some t" "isExtended landmarks 8 6 = Some i"
    "isExtended landmarks 12 10 = Some m" "isExtended landmarks 16 14 = Some r"
    "isExtended landmarks 20 18 = Some p" by blast
  from handSample_wellFormed [OF assms this] show ?thesis by simp
qed

text \<open>
  The scenario of the specification: the wrist at \<open>(0.5, 0.5)\<close>, the index finger
  pointing, the others curled.
\<close>

theorem palm_position_witness:
  "wellFormed (hand 0.5 0.5 0.1 0.45 0.1 0.1 0.1) \<and>
   inImage (hand 0.5 0.5 0.1 0.45 0.1 0.1 0.1) \<and>
   lx (hand 0.5 0.5 0.1 0.45 0.1 0.1 0.1 ! 0) = 0.5 \<and>
   ly (hand 0.5 0.5 0.1 0.45 0.1 0.1 0.1 ! 0) = 0.5 \<and>
   map_option position (handSample [hand 0.5 0.5 0.1 0.45 0.1 0.1 0.1]) = Some (0, 0)"
proof -
  let ?h = "hand 0.5 0.5 0.1 0.45 0.1 0.1 0.1"
  have wf: "wellFormed ?h" by (simp add: wellFormed_def hand_def)
  have im: "inImage ?h" by (simp add: inImage_def hand_def pt_def)
  have w: "lx (?h ! 0) = 0.5 \<and> ly (?h ! 0) = 0.5" by (simp add: hand_def pt_def)
  from palm_position [OF wf, of "[]"] w have
    "map_option position (handSample [?h]) = Some (0, 0)" by blast
  with wf im w show ?thesis by blast
qed

lemma firstMatch_none: "\<forall>b\<in>set bs. \<not> fst b \<Longrightarrow> firstMatch bs = NONE"
  by (induction bs rule: firstMatch.induct) auto

lemma firstMatch_unique:
  "(True, g0) \<in> set bs \<Longrightarrow> \<forall>b\<in>set bs. fst b \<longrightarrow> snd b = g0 \<Longrightarrow> firstMatch bs = g0"
  by (induction bs rule: firstMatch.induct) auto

lemma firstMatch_branches:
  assumes "set bs = set (branches t i m r p)"
  shows "firstMatch bs = classify t i m r p"
proof -
  consider (one) "condONE t i m r p" | (opn) "condOPEN t i m r p" | (cls) "condCLOSED t i m r p"
    | (none) "\<not> condONE t i m r p" "\<not> condOPEN t i m r p" "\<not> condCLOSED t i m r p"
    by blast
  then show ?thesis
  proof cases
    case one
    with conds_exclusive [of t i m r p] have "\<not> condOPEN t i m r p" "\<not> condCLOSED t i m r p" by auto
    with one assms have "firstMatch bs = ONE"
      by (intro firstMatch_unique) (auto simp add: branches_def)
    with one show ?thesis by (simp add: classify_ONE)
  next
    case opn
    with conds_exclusive [of t i m r p] have "\<not> condONE t i m r p" "\<not> condCLOSED t i m r p" by auto
    with opn assms have "firstMatch bs = OPEN"
      by (intro firstMatch_unique) (auto simp add: branches_def)
    with opn show ?thesis by (simp add: classify_OPEN)
  next
    case cls
    with conds_exclusive [of t i m r p] have "\<not> condONE t i m r p" "\<not> condOPEN t i m r p" by auto
    with cls assms have "firstMatch bs = CLOSED"
      by (intro firstMatch_unique) (auto simp add: branches_def)
    with cls show ?thesis by (simp add: classify_CLOSED)
  next
    case none
    with assms have "firstMatch bs = NONE"
      by (intro firstMatch_none) (auto simp add: branches_def)
    with none show ?thesis by (simp add: classify_def)
  qed
qed

text \<open>
  C10: whatever the five extension flags are, no two of the three tests of the chain hold
  together, and a chain that tests the same three branches in any order returns the label
  the code returns.
\<close>

theorem gesture_conditions_exclusive:
  "\<not> (condONE t i m r p \<and> condOPEN t i m r p) \<and>
   \<not> (condONE t i m r p \<and> condCLOSED t i m r p) \<and>
   \<not> (condOPEN t i m r p \<and> condCLOSED t i m r p) \<and>
   firstMatch (branches t i m r p) = classify t i m r p \<and>
   (set bs = set (branches t i m r p) \<longrightarrow> firstMatch bs = classify t i m r p)"
  using conds_exclusive [of t i m r p] firstMatch_branches [of _ t i m r p] by blast

text \<open>An open hand, with the branches tested in the opposite order.\<close>

theorem gesture_conditions_exclusive_witness:
  "set [(condCLOSED True False True True True, CLOSED), (condOPEN True False True True True, OPEN),
        (condONE True False True True True, ONE)] = set (branches True False True True True) \<and>
   firstMatch [(condCLOSED True False True True True, CLOSED),
               (condOPEN True False True True True, OPEN),
               (condONE True False True True True, ONE)] = classify True False True True True"
proof -
  let ?bs = "[(condCLOSED True False True True True, CLOSED),
              (condOPEN True False True True True, OPEN),
              (condONE True False True True True, ONE)]"
  have h: "set ?bs = set (branches True False True True True)"
    by (auto simp add: branches_def)
  from gesture_conditions_exclusive [of True False True True True ?bs] h show ?thesis by blast
qed

section \<open>The scene state machine\<close>

lemma onSample_treeState:
  "treeState (onSample app d) =
     (if gesture d = OPEN then SCATTERED
      else if gesture d = CLOSED then TREE_SHAPE
      else treeState app)"
  by (cases "treeState app") (simp_all add: onSample_def handleHandUpdate_def ensureMusic_def)

lemma transitions_append: "transitions (xs @ ys) = transitions xs + transitions ys"
  by (simp add: transitions_def)

lemma transitions_handle:
  "transitions (handleHandUpdate app d) =
     (if gesture d = OPEN \<and> treeState app \<noteq> SCATTERED \<or>
         gesture d = CLOSED \<and> treeState app \<noteq> TREE_SHAPE then 1 else 0)"
  by (simp add: transitions_def handleHandUpdate_def ensureMusic_def)

lemma feed_closed_assembled:
  "treeState app = TREE_SHAPE \<Longrightarrow> \<forall>d\<in>set ds. gesture d = CLOSED \<Longrightarrow>
     treeState (fst (feed app ds)) = TREE_SHAPE \<and> transitions (snd (feed app ds)) = 0"
proof (induction ds arbitrary: app)
  case Nil
  then show ?case by (simp add: transitions_def)
next
  case (Cons d ds)
  from Cons.prems have "treeState (onSample app d) = TREE_SHAPE"
    by (simp add: onSample_treeState)
  with Cons have "treeState (fst (feed (onSample app d) ds)) = TREE_SHAPE \<and>
     transitions (snd (feed (onSample app d) ds)) = 0" by simp
  with Cons.prems show ?case
    by (simp add: split_beta transitions_append transitions_handle)
qed

lemma feed_closed_scattered:
  assumes "treeState app = SCATTERED" and "ds \<noteq> []" and "\<forall>d\<in>set ds. gesture d = CLOSED"
  shows "treeState (fst (feed app ds)) = TREE_SHAPE \<and> transitions (snd (feed app ds)) = 1"
proof -
  from assms obtain d ds' where ds: "ds = d # ds'" by (cases ds) auto
  with assms have g: "gesture d = CLOSED" and r: "\<forall>d\<in>set ds'. gesture d = CLOSED" by auto
  then have "treeState (onSample app d) = TREE_SHAPE" by (simp add: onSample_treeState)
  from feed_closed_assembled [OF this r] g assms(1) show ?thesis
    by (simp add: ds split_beta transitions_append transitions_handle)
qed

text \<open>
  C4: the state machine starts at \<open>SCATTERED\<close>; a sample with \<open>OPEN\<close> in a state other
  than \<open>SCATTERED\<close> sets \<open>SCATTERED\<close>, a sample with \<open>CLOSED\<close> in a state other than
  \<open>TREE_SHAPE\<close> (the assembled state) sets \<open>TREE_SHAPE\<close>, a sample with \<open>ONE\<close> or
  \<open>NONE\<close> sets nothing; and \<open>CLOSED\<close> on \<open>N > 0\<close> consecutive frames from the initial
  state ends in \<open>TREE_SHAPE\<close> with exactly one call of the state setter.
\<close>

theorem scene_state_machine:
  "treeState initialApp = SCATTERED \<and>
   (gesture d1 = OPEN \<and> treeState app1 \<noteq> SCATTERED \<longrightarrow>
      treeState (onSample app1 d1) = SCATTERED \<and> transitions (handleHandUpdate app1 d1) = 1) \<and>
   (gesture d2 = CLOSED \<and> treeState app2 \<noteq> TREE_SHAPE \<longrightarrow>
      treeState (onSample app2 d2) = TREE_SHAPE \<and> transitions (handleHandUpdate app2 d2) = 1) \<and>
   (gesture d3 = ONE \<or> gesture d3 = NONE \<longrightarrow>
      treeState (onSample app3 d3) = treeState app3 \<and> transitions (handleHandUpdate app3 d3) = 0) \<and>
   (0 < N \<and> length ds = N \<and> (\<forall>d\<in>set ds. gesture d = CLOSED) \<longrightarrow>
      treeState (fst (feed initialApp ds)) = TREE_SHAPE \<and>
      transitions (snd (feed initialApp ds)) = 1)"
proof -
  have i: "treeState initialApp = SCATTERED" by (simp add: initialApp_def)
  have "0 < N \<and> length ds = N \<and> (\<forall>d\<in>set ds. gesture d = CLOSED) \<longrightarrow>
      treeState (fst (feed initialApp ds)) = TREE_SHAPE \<and>
      transitions (snd (feed initialApp ds)) = 1"
    using feed_closed_scattered [OF i, of ds] by auto
  then show ?thesis
    using i by (auto simp add: onSample_treeState transitions_handle)
qed

text \<open>
  An open hand in the assembled state, a fist in the scattered state, a pointing hand, and
  three frames of a fist from the initial state.
\<close>

theorem scene_state_machine_witness:
  "treeState (onSample (initialApp\<lparr>treeState := TREE_SHAPE\<rparr>) (fistSample\<lparr>gesture := OPEN\<rparr>))
     = SCATTERED \<and>
   treeState (onSample initialApp fistSample) = TREE_SHAPE \<and>
   treeState (onSample initialApp (fistSample\<lparr>gesture := ONE\<rparr>)) = SCATTERED \<and>
   treeState (fst (feed initialApp [fistSample, fistSample, fistSample])) = TREE_SHAPE \<and>
   transitions (snd (feed initialApp [fistSample, fistSample, fistSample])) = 1"
proof -
  have h1: "gesture (fistSample\<lparr>gesture := OPEN\<rparr>) = OPEN \<and>
            treeState (initialApp\<lparr>treeState := TREE_SHAPE\<rparr>) \<noteq> SCATTERED" by simp
  have h2: "gesture fistSample = CLOSED \<and> treeState initialApp \<noteq> TREE_SHAPE"
    by (simp add: fistSample_def initialApp_def)
  have h3: "gesture (fistSample\<lparr>gesture := ONE\<rparr>) = ONE \<or>
            gesture (fistSample\<lparr>gesture := ONE\<rparr>) = NONE" by simp
  have h4: "0 < (3 :: nat) \<and> length [fistSample, fistSample, fistSample] = 3 \<and>
            (\<forall>d\<in>set [fistSample, fistSample, fistSample]. gesture d = CLOSED)"
    by (simp add: fistSample_def)
  from scene_state_machine [of "fistSample\<lparr>gesture := OPEN\<rparr>"
      "initialApp\<lparr>treeState := TREE_SHAPE\<rparr>" fistSample initialApp
      "fistSample\<lparr>gesture := ONE\<rparr>" initialApp 3 "[fistSample, fistSample, fistSample]"]
    h1 h2 h3 h4
  show ?thesis by simp
qed

section \<open>Easing and blending\<close>

lemma pow3: "0 \<le> b \<Longrightarrow> pow b 3 = b ^ 3"
  by (cases "b = 0") (simp_all add: pow_def)

lemma easeInOutCubic_specEase:
  assumes "t \<le> 1"
  shows "easeInOutCubic t = specEase t"
proof (cases "t < 0.5")
  case True
  then show ?thesis by (simp add: easeInOutCubic_def specEase_def power3_eq_cube)
next
  case False
  from assms have "0 \<le> - 2 * t + 2" by simp
  then have "pow (- 2 * t + 2) 3 = (- 2 * t + 2) ^ 3" by (rule pow3)
  with False show ?thesis by (simp add: easeInOutCubic_def specEase_def)
qed

lemma easeT_quadratic: "easeT t = (if t < 0.5 then 2 * t\<^sup>2 else 1 - 2 * (1 - t)\<^sup>2)"
  by (simp add: easeT_def power2_eq_square algebra_simps)

lemma easeT_vs_cubic:
  "easeT t = specEase t \<longleftrightarrow> t = 0 \<or> t = 1 / 2 \<or> t = 1"
proof (cases "t < 1 / 2")
  case True
  have "easeT t - specEase t = 2 * t * t * (1 - 2 * t)"
    using True by (simp add: easeT_def specEase_def power3_eq_cube algebra_simps)
  moreover have "2 * t * t * (1 - 2 * t) = 0 \<longleftrightarrow> t = 0" using True by auto
  ultimately show ?thesis using True by auto
next
  case False
  have "easeT t - specEase t = 2 * (1 - t) * (1 - t) * (1 - 2 * t)"
    using False by (simp add: easeT_def specEase_def power3_eq_cube field_simps)
  moreover have "2 * (1 - t) * (1 - t) * (1 - 2 * t) = 0 \<longleftrightarrow> t = 1 \<or> t = 1 / 2" by auto
  ultimately show ?thesis using False by auto
qed

text \<open>
  C2, as the code has it: for every progress \<open>t\<close> in \<open>[0, 1]\<close>, the eased progress of
  the foliage (the shader's \<open>easeInOutCubic\<close>) is the cubic ease-in-out of \<open>t\<close>; the
  eased progress of the ornaments (\<open>easeT\<close>) is the quadratic ease-in-out, \<open>2t\<^sup>2\<close>
  below \<open>0.5\<close> and \<open>1 - 2(1 - t)\<^sup>2\<close> from there, which meets the cubic at \<open>0\<close>,
  \<open>1/2\<close> and \<open>1\<close> only.
\<close>

theorem eased_progress:
  assumes "0 \<le> t" and "t \<le> 1"
  shows "easeInOutCubic t = specEase t \<and>
         easeT t = (if t < 0.5 then 2 * t\<^sup>2 else 1 - 2 * (1 - t)\<^sup>2) \<and>
         (easeT t = specEase t) = (t = 0 \<or> t = 1 / 2 \<or> t = 1)"
  using easeInOutCubic_specEase [OF assms(2)] easeT_quadratic [of t] easeT_vs_cubic [of t]
  by blast

theorem eased_progress_witness:
  "(0 :: real) \<le> 3 / 4 \<and> (3 / 4 :: real) \<le> 1 \<and>
   easeInOutCubic (3 / 4) = 15 / 16 \<and> easeT (3 / 4) = 7 / 8"
proof -
  have h: "(0 :: real) \<le> 3 / 4" "(3 / 4 :: real) \<le> 1" by simp_all
  from eased_progress [OF h] h show ?thesis
    by (simp add: specEase_def power2_eq_square power3_eq_cube)
qed

text \<open>
  At a quarter of the way the ornaments' eased progress is \<open>1/8\<close>, the cubic ease-in-out
  is \<open>1/16\<close>.
\<close>

theorem eased_progress_counterexample:
  "(0 :: real) \<le> 1 / 4 \<and> (1 / 4 :: real) \<le> 1 \<and>
   easeT (1 / 4) = 1 / 8 \<and> specEase (1 / 4) = 1 / 16"
  by (simp add: easeT_def specEase_def power3_eq_cube)

text \<open>
  C6: the blended position of every ornament and of every foliage particle, before any
  secondary motion, is the scattered position at progress \<open>0\<close> and the assembled (tree)
  position at progress \<open>1\<close>.
\<close>

theorem blend_endpoints:
  "ornamentPosition d 0 = scatter d \<and> ornamentPosition d 1 = tree d \<and>
   foliageBlend 0 aScatterPos aTreePos = aScatterPos \<and>
   foliageBlend 1 aScatterPos aTreePos = aTreePos"
  by (simp add: ornamentPosition_def foliageBlend_def mix3_def mix_def lerp_def easeT_def
      easeInOutCubic_def pow_def split: prod.splits)

section \<open>The transition controllers\<close>

lemma foliageStep_spec:
  assumes "0 \<le> p" "p \<le> 1" "0 \<le> dt"
  shows "foliageStep ts dt p = specStep 1.5 (targetOf ts) dt p"
proof (cases ts)
  case SCATTERED
  show ?thesis
  proof (cases "\<bar>p\<bar> \<le> 0.001")
    case True
    then show ?thesis using SCATTERED by (simp add: foliageStep_def specStep_def targetOf_def)
  next
    case False
    with assms have "0 < p" by simp
    moreover have "0 \<le> dt * 1.5" using assms by simp
    ultimately show ?thesis using SCATTERED False assms
      by (simp add: foliageStep_def specStep_def targetOf_def Let_def max_def min_def)
  qed
next
  case TREE_SHAPE
  show ?thesis
  proof (cases "\<bar>p - 1\<bar> \<le> 0.001")
    case True
    then show ?thesis using TREE_SHAPE
      by (simp add: foliageStep_def specStep_def targetOf_def abs_minus_commute)
  next
    case False
    with assms have "p < 1" by simp
    moreover have "0 \<le> dt * 1.5" using assms by simp
    ultimately show ?thesis using TREE_SHAPE False assms
      by (simp add: foliageStep_def specStep_def targetOf_def Let_def max_def min_def
          abs_minus_commute)
  qed
qed

lemma ornamentsStep_eq:
  "ornamentsStep ts dt p =
     (if \<bar>targetOf ts - p\<bar> \<le> 0.001 then p else p + (targetOf ts - p) * dt * 1.0)"
  by (simp add: ornamentsStep_def targetOf_def Let_def)

lemma foliageStep_range:
  assumes "0 \<le> p" "p \<le> 1" "0 \<le> dt"
  shows "0 \<le> foliageStep ts dt p \<and> foliageStep ts dt p \<le> 1"
proof -
  have "0 \<le> dt * 1.5" using assms by simp
  then show ?thesis using assms
    by (cases ts) (auto simp add: foliageStep_def Let_def)
qed

lemma ornamentsStep_range:
  assumes "0 \<le> p" "p \<le> 1" "0 \<le> dt" "dt \<le> 1"
  shows "0 \<le> ornamentsStep ts dt p \<and> ornamentsStep ts dt p \<le> 1"
proof -
  define x where "x = (targetOf ts - p) * dt"
  have eq: "ornamentsStep ts dt p = p \<or> ornamentsStep ts dt p = p + x"
    by (simp add: ornamentsStep_def Let_def targetOf_def x_def)
  show ?thesis
  proof (cases ts)
    case SCATTERED
    have "p * dt \<le> p * 1" using assms by (intro mult_left_mono) simp_all
    moreover have "0 \<le> p * dt" using assms by simp
    moreover have "x = - (p * dt)" by (simp add: x_def targetOf_def SCATTERED)
    ultimately have "0 \<le> p + x \<and> p + x \<le> 1" using assms(1,2) by linarith
    with eq assms(1,2) show ?thesis by (elim disjE) simp_all
  next
    case TREE_SHAPE
    have x: "x = (1 - p) * dt" by (simp add: x_def targetOf_def TREE_SHAPE)
    have "(1 - p) * dt \<le> (1 - p) * 1" using assms by (intro mult_left_mono) simp_all
    then have "x \<le> 1 - p" by (simp add: x)
    moreover have "0 \<le> x" unfolding x using assms by (intro mult_nonneg_nonneg) simp_all
    ultimately have "0 \<le> p + x \<and> p + x \<le> 1" using assms(1,2) by linarith
    with eq assms(1,2) show ?thesis by (elim disjE) simp_all
  qed
qed

text \<open>
  C3, as the code has it: for progress in \<open>[0, 1]\<close> and a frame time \<open>dt \<ge> 0\<close>, the
  update of the foliage (speed \<open>1.5\<close>) is the update the specification describes: nothing
  within \<open>0.001\<close> of the target, otherwise a step of \<open>sign(target - progress) * dt * S\<close>,
  clamped to \<open>[0, 1]\<close>, so that progress stays in \<open>[0, 1]\<close>. The update of the
  ornaments (speed \<open>1.0\<close>), for a frame of at most one second, also does nothing within
  \<open>0.001\<close> of the target, and otherwise adds \<open>(target - progress) * dt * S\<close>, a step
  in proportion to the distance left, which keeps progress in \<open>[0, 1]\<close>.
\<close>

theorem frame_update:
  assumes "0 \<le> p" and "p \<le> 1" and "0 \<le> dt"
  shows "foliageStep ts dt p = specStep 1.5 (targetOf ts) dt p \<and>
         0 \<le> foliageStep ts dt p \<and> foliageStep ts dt p \<le> 1 \<and>
         (dt \<le> 1 \<longrightarrow>
            ornamentsStep ts dt p =
              (if \<bar>targetOf ts - p\<bar> \<le> 0.001 then p else p + (targetOf ts - p) * dt * 1.0) \<and>
            0 \<le> ornamentsStep ts dt p \<and> ornamentsStep ts dt p \<le> 1)"
  using foliageStep_spec [OF assms] foliageStep_range [OF assms] ornamentsStep_eq [of ts dt p]
    ornamentsStep_range [OF assms, of ts]
  by blast

theorem frame_update_witness:
  "(0 :: real) \<le> 1 / 2 \<and> (1 / 2 :: real) \<le> 1 \<and> (0 :: real) \<le> 1 / 10 \<and>
   (1 / 10 :: real) \<le> 1 \<and>
   foliageStep TREE_SHAPE (1 / 10) (1 / 2) = 13 / 20 \<and>
   ornamentsStep TREE_SHAPE (1 / 10) (1 / 2) = 11 / 20"
proof -
  have h: "(0 :: real) \<le> 1 / 2" "(1 / 2 :: real) \<le> 1" "(0 :: real) \<le> 1 / 10" by simp_all
  have h4: "(1 / 10 :: real) \<le> 1" by simp
  from frame_update [OF h, of TREE_SHAPE] h h4 show ?thesis
    by (simp add: specStep_def targetOf_def)
qed

text \<open>
  Half way to the target \<open>1\<close>, a frame of half a second moves the ornaments to \<open>3/4\<close>
  where the described update (at their speed \<open>1\<close>) moves to \<open>1\<close>.
\<close>

theorem frame_update_counterexample:
  "ornamentsStep TREE_SHAPE (1 / 2) (1 / 2) = 3 / 4 \<and>
   specStep 1 (targetOf TREE_SHAPE) (1 / 2) (1 / 2) = 1"
  by (simp add: ornamentsStep_def specStep_def targetOf_def)

lemma foliageRun_snoc: "foliageRun ts (ds @ [d]) p = foliageStep ts d (foliageRun ts ds p)"
  by (simp add: foliageRun_def)

lemma ornamentsRun_snoc: "ornamentsRun ts (ds @ [d]) p = ornamentsStep ts d (ornamentsRun ts ds p)"
  by (simp add: ornamentsRun_def)

lemma foliageRun_range:
  assumes "0 \<le> p" "p \<le> 1" "\<forall>d\<in>set ds. 0 \<le> d"
  shows "0 \<le> foliageRun ts ds p \<and> foliageRun ts ds p \<le> 1"
  using assms(3)
proof (induction ds rule: rev_induct)
  case Nil
  then show ?case using assms by (simp add: foliageRun_def)
next
  case (snoc d ds)
  then show ?case by (simp add: foliageRun_snoc foliageStep_range)
qed

lemma foliageStep_bounded:
  assumes "0 \<le> p" "p \<le> 1" "0 \<le> dt"
  shows "\<bar>foliageStep ts dt p - p\<bar> \<le> dt * 1.5"
proof -
  have "0 \<le> dt * 1.5" using assms by simp
  then show ?thesis using assms
    by (cases ts) (auto simp add: foliageStep_def Let_def)
qed

lemma foliageStep_down:
  assumes "0 \<le> p" "p \<le> 1" "0 \<le> dt"
  shows "foliageStep SCATTERED dt p \<le> p"
proof -
  have "0 \<le> dt * 1.5" using assms by simp
  then show ?thesis using assms
    by (auto simp add: foliageStep_def Let_def)
qed

lemma foliageStep_up:
  assumes "0 \<le> q" "q \<le> 1" "0 \<le> d"
  shows "min 0.999 (q + 1.5 * d) \<le> foliageStep TREE_SHAPE d q"
proof -
  have "0 \<le> d * 1.5" using assms by simp
  then show ?thesis using assms
    by (auto simp add: foliageStep_def Let_def)
qed

lemma foliageStep_settled: "\<bar>1 - q\<bar> \<le> 0.001 \<Longrightarrow> foliageStep TREE_SHAPE d q = q"
  by (simp add: foliageStep_def abs_minus_commute)

lemma foliageRun_reaches:
  assumes "0 \<le> p" "p \<le> 1" "\<forall>d\<in>set ds. 0 \<le> d"
  shows "min 0.999 (p + 1.5 * sum_list ds) \<le> foliageRun TREE_SHAPE ds p"
  using assms(3)
proof (induction ds rule: rev_induct)
  case Nil
  then show ?case using assms by (simp add: foliageRun_def)
next
  case (snoc d ds)
  let ?q = "foliageRun TREE_SHAPE ds p"
  from snoc have ih: "min 0.999 (p + 1.5 * sum_list ds) \<le> ?q" and d: "0 \<le> d"
    and ds: "\<forall>d\<in>set ds. 0 \<le> d" by simp_all
  from foliageRun_range [OF assms(1,2) ds] have q: "0 \<le> ?q" "?q \<le> 1" by simp_all
  have "1.5 * (sum_list ds + d) = 1.5 * sum_list ds + 1.5 * d"
    by (simp add: algebra_simps)
  then have "min 0.999 (p + 1.5 * (sum_list ds + d)) \<le> min 0.999 (?q + 1.5 * d)"
    using ih d by linarith
  also have "\<dots> \<le> foliageStep TREE_SHAPE d ?q"
    using q d by (rule foliageStep_up)
  finally show ?case by (simp add: foliageRun_snoc)
qed

lemma foliage_reaches_one:
  assumes "\<forall>d\<in>set ds. 0 \<le> d" and "1 \<le> 1.5 * sum_list ds"
  shows "\<bar>1 - foliageRun TREE_SHAPE ds 0\<bar> \<le> 0.001"
proof -
  from foliageRun_reaches [of 0 ds] assms have "0.999 \<le> foliageRun TREE_SHAPE ds 0"
    by (simp add: min_def split: if_splits)
  moreover from foliageRun_range [of 0 ds TREE_SHAPE] assms have "foliageRun TREE_SHAPE ds 0 \<le> 1"
    by simp
  ultimately show ?thesis by simp
qed

lemma ornamentsRun_range:
  assumes "0 \<le> p" "p \<le> 1" "\<forall>d\<in>set ds. 0 \<le> d \<and> d \<le> 1"
  shows "0 \<le> ornamentsRun ts ds p \<and> ornamentsRun ts ds p \<le> 1"
  using assms(3)
proof (induction ds rule: rev_induct)
  case Nil
  then show ?case using assms by (simp add: ornamentsRun_def)
next
  case (snoc d ds)
  then show ?case by (simp add: ornamentsRun_snoc ornamentsStep_range)
qed

lemma ornamentsStep_bounded:
  assumes "0 \<le> p" "p \<le> 1" "0 \<le> dt"
  shows "\<bar>ornamentsStep ts dt p - p\<bar> \<le> dt * 1.0"
proof -
  have "\<bar>targetOf ts - p\<bar> \<le> 1" using assms by (cases ts) (simp_all add: targetOf_def)
  then have "\<bar>targetOf ts - p\<bar> * dt \<le> 1 * dt" using assms by (intro mult_right_mono) simp_all
  then have "\<bar>(targetOf ts - p) * dt\<bar> \<le> dt" using assms by (simp add: abs_mult)
  then show ?thesis using assms
    by (simp add: ornamentsStep_def Let_def targetOf_def split: if_splits)
qed

lemma ornamentsStep_down:
  assumes "0 \<le> p" "0 \<le> dt"
  shows "ornamentsStep SCATTERED dt p \<le> p"
  using assms by (simp add: ornamentsStep_def Let_def)

lemma ornamentsStep_settled: "\<bar>1 - q\<bar> \<le> 0.001 \<Longrightarrow> ornamentsStep TREE_SHAPE d q = q"
  by (simp add: ornamentsStep_def)

lemma exp_minus_8: "exp (- 8 :: real) \<le> 0.001"
proof -
  have "(5 / 2 :: real) \<le> exp 1"
    using exp_lower_Taylor_quadratic [of "1 :: real"] by simp
  then have "(5 / 2 :: real) ^ 8 \<le> exp 1 ^ 8" by (intro power_mono) simp_all
  also have "exp (1 :: real) ^ 8 = exp 8"
    using exp_of_nat_mult [of 8 "1 :: real"] by simp
  finally have "(5 / 2 :: real) ^ 8 \<le> exp 8" .
  moreover have "(1000 :: real) \<le> (5 / 2) ^ 8" by (simp add: power_divide)
  ultimately have "(1000 :: real) \<le> exp 8" by linarith
  then have "inverse (exp (8 :: real)) \<le> inverse 1000" by (intro le_imp_inverse_le) simp_all
  then show ?thesis by (simp add: exp_minus)
qed

text \<open>
  The distance of the ornaments' progress to \<open>1\<close> shrinks at least as fast as
  \<open>exp (- elapsed time)\<close>, until it is within \<open>0.001\<close>.
\<close>

lemma ornamentsRun_contract:
  assumes "0 \<le> p" "p \<le> 1" "\<forall>d\<in>set ds. 0 \<le> d \<and> d \<le> 1"
  shows "1 - ornamentsRun TREE_SHAPE ds p \<le> max 0.001 ((1 - p) * exp (- sum_list ds))"
  using assms(3)
proof (induction ds rule: rev_induct)
  case Nil
  then show ?case by (simp add: ornamentsRun_def)
next
  case (snoc d ds)
  let ?q = "ornamentsRun TREE_SHAPE ds p"
  let ?M = "(1 - p) * exp (- sum_list ds)"
  from snoc have ih: "1 - ?q \<le> max 0.001 ?M" and d: "0 \<le> d" "d \<le> 1"
    and ds: "\<forall>d\<in>set ds. 0 \<le> d \<and> d \<le> 1" by simp_all
  from ornamentsRun_range [OF assms(1,2) ds] have q: "0 \<le> ?q" "?q \<le> 1" by simp_all
  have e: "exp (- d) \<le> 1" using d by simp
  have M: "?M * exp (- d) = (1 - p) * exp (- sum_list (ds @ [d]))"
    by (simp add: exp_add [symmetric] exp_diff exp_minus field_simps)
  show ?case
  proof (cases "\<bar>1 - ?q\<bar> > 0.001")
    case True
    then have "1 - ornamentsStep TREE_SHAPE d ?q = (1 - ?q) * (1 - d)"
      by (simp add: ornamentsStep_def Let_def algebra_simps)
    also have "1 - d \<le> exp (- d)" using exp_ge_add_one_self [of "- d"] by simp
    then have "(1 - ?q) * (1 - d) \<le> (1 - ?q) * exp (- d)"
      using q by (intro mult_left_mono) simp_all
    also have "\<dots> \<le> max 0.001 ?M * exp (- d)"
      using ih by (intro mult_right_mono) simp_all
    also have "\<dots> = max (0.001 * exp (- d)) (?M * exp (- d))"
      by (simp add: max_mult_distrib_right)
    also have "\<dots> \<le> max 0.001 (?M * exp (- d))"
      using e by (intro max.mono) simp_all
    finally show ?thesis by (simp only: M ornamentsRun_snoc)
  next
    case False
    then have "ornamentsStep TREE_SHAPE d ?q = ?q" by (simp add: ornamentsStep_def Let_def)
    moreover from False have "1 - ?q \<le> 0.001" by linarith
    ultimately show ?thesis by (simp add: ornamentsRun_snoc le_max_iff_disj)
  qed
qed

lemma ornaments_reaches_one:
  assumes "\<forall>d\<in>set ds. 0 \<le> d \<and> d \<le> 1" and "8 \<le> sum_list ds"
  shows "\<bar>1 - ornamentsRun TREE_SHAPE ds 0\<bar> \<le> 0.001"
proof -
  have "exp (- sum_list ds) \<le> exp (- 8)" using assms(2) by simp
  with exp_minus_8 have "exp (- sum_list ds) \<le> 0.001" by linarith
  with ornamentsRun_contract [of 0 ds] assms(1) have "1 - ornamentsRun TREE_SHAPE ds 0 \<le> 0.001"
    by simp
  moreover from ornamentsRun_range [of 0 ds TREE_SHAPE] assms(1)
  have "ornamentsRun TREE_SHAPE ds 0 \<le> 1" by simp
  ultimately show ?thesis by simp
qed

text \<open>
  Interruption and convergence, where both controllers have them. The frames after the
  target has flipped to \<open>0\<close> at a progress \<open>p\<close> in \<open>[0, 1]\<close> have the times
  \<open>ds\<close>, then \<open>d\<close>, none negative.

  For the foliage (speed \<open>1.5\<close>): every update leaves progress in \<open>[0, 1]\<close> and does not
  raise it, towards either target no update changes progress by more than \<open>d * 1.5\<close>,
  and from \<open>0\<close> with target \<open>1\<close> progress is within \<open>0.001\<close> of \<open>1\<close> after any frames
  whose times add up to at least \<open>1 / 1.5\<close> seconds (so also after any further frames),
  where an update changes nothing.

  For the ornaments (speed \<open>1.0\<close>) the same holds when no frame is longer than one
  second, with \<open>8\<close> seconds as the time that suffices.
\<close>

theorem controllers_interruption:
  assumes "0 \<le> p" and "p \<le> 1" and "0 \<le> d" and "\<forall>e\<in>set ds. 0 \<le> e"
  shows "0 \<le> foliageRun SCATTERED (ds @ [d]) p \<and>
         foliageRun SCATTERED (ds @ [d]) p \<le> foliageRun SCATTERED ds p \<and>
         \<bar>foliageRun ts (ds @ [d]) p - foliageRun ts ds p\<bar> \<le> d * 1.5 \<and>
         (1 \<le> 1.5 * sum_list ds \<longrightarrow>
            \<bar>1 - foliageRun TREE_SHAPE ds 0\<bar> \<le> 0.001 \<and>
            foliageRun TREE_SHAPE (ds @ [d]) 0 = foliageRun TREE_SHAPE ds 0) \<and>
         (d \<le> 1 \<and> (\<forall>e\<in>set ds. e \<le> 1) \<longrightarrow>
            0 \<le> ornamentsRun SCATTERED (ds @ [d]) p \<and>
            ornamentsRun SCATTERED (ds @ [d]) p \<le> ornamentsRun SCATTERED ds p \<and>
            \<bar>ornamentsRun ts (ds @ [d]) p - ornamentsRun ts ds p\<bar> \<le> d * 1.0 \<and>
            (8 \<le> sum_list ds \<longrightarrow>
               \<bar>1 - ornamentsRun TREE_SHAPE ds 0\<bar> \<le> 0.001 \<and>
               ornamentsRun TREE_SHAPE (ds @ [d]) 0 = ornamentsRun TREE_SHAPE ds 0))"
proof -
  have fr: "0 \<le> foliageRun ts' ds p \<and> foliageRun ts' ds p \<le> 1" for ts'
    using assms by (intro foliageRun_range) simp_all
  have f1: "0 \<le> foliageRun SCATTERED (ds @ [d]) p"
    using fr [of SCATTERED] assms(3) by (simp add: foliageRun_snoc foliageStep_range)
  have f2: "foliageRun SCATTERED (ds @ [d]) p \<le> foliageRun SCATTERED ds p"
    using fr [of SCATTERED] assms(3) by (simp add: foliageRun_snoc foliageStep_down)
  have f3: "\<bar>foliageRun ts (ds @ [d]) p - foliageRun ts ds p\<bar> \<le> d * 1.5"
    using fr [of ts] assms(3) unfolding foliageRun_snoc by (intro foliageStep_bounded) simp_all
  have f4: "\<bar>1 - foliageRun TREE_SHAPE ds 0\<bar> \<le> 0.001 \<and>
            foliageRun TREE_SHAPE (ds @ [d]) 0 = foliageRun TREE_SHAPE ds 0"
    if "1 \<le> 1.5 * sum_list ds"
    using foliage_reaches_one [OF assms(4) that] by (simp add: foliageRun_snoc foliageStep_settled)
  have o: "0 \<le> ornamentsRun SCATTERED (ds @ [d]) p \<and>
      ornamentsRun SCATTERED (ds @ [d]) p \<le> ornamentsRun SCATTERED ds p \<and>
      \<bar>ornamentsRun ts (ds @ [d]) p - ornamentsRun ts ds p\<bar> \<le> d * 1.0 \<and>
      (8 \<le> sum_list ds \<longrightarrow>
         \<bar>1 - ornamentsRun TREE_SHAPE ds 0\<bar> \<le> 0.001 \<and>
         ornamentsRun TREE_SHAPE (ds @ [d]) 0 = ornamentsRun TREE_SHAPE ds 0)"
    if d1: "d \<le> 1" and ds1: "\<forall>e\<in>set ds. e \<le> 1"
  proof -
    from assms(4) ds1 have b: "\<forall>e\<in>set ds. 0 \<le> e \<and> e \<le> 1" by blast
    have r: "0 \<le> ornamentsRun ts' ds p \<and> ornamentsRun ts' ds p \<le> 1" for ts'
      using assms(1,2) b by (rule ornamentsRun_range)
    have o1: "0 \<le> ornamentsRun SCATTERED (ds @ [d]) p"
      using r [of SCATTERED] assms(3) d1 by (simp add: ornamentsRun_snoc ornamentsStep_range)
    have o2: "ornamentsRun SCATTERED (ds @ [d]) p \<le> ornamentsRun SCATTERED ds p"
      using r [of SCATTERED] assms(3) by (simp add: ornamentsRun_snoc ornamentsStep_down)
    have o3: "\<bar>ornamentsRun ts (ds @ [d]) p - ornamentsRun ts ds p\<bar> \<le> d * 1.0"
      using r [of ts] assms(3) unfolding ornamentsRun_snoc
      by (intro ornamentsStep_bounded) simp_all
    have o4: "\<bar>1 - ornamentsRun TREE_SHAPE ds 0\<bar> \<le> 0.001 \<and>
        ornamentsRun TREE_SHAPE (ds @ [d]) 0 = ornamentsRun TREE_SHAPE ds 0"
      if "8 \<le> sum_list ds"
      using ornaments_reaches_one [OF b that]
      by (simp add: ornamentsRun_snoc ornamentsStep_settled)
    from o1 o2 o3 o4 show ?thesis by blast
  qed
  from f1 f2 f3 f4 o show ?thesis by blast
qed

text \<open>
  Eight frames of one second and one of a quarter, from the progress \<open>1/2\<close>.
\<close>

theorem controllers_interruption_witness:
  "foliageRun SCATTERED ([1, 1, 1, 1, 1, 1, 1, 1] @ [1 / 4]) (1 / 2)
     \<le> foliageRun SCATTERED [1, 1, 1, 1, 1, 1, 1, 1] (1 / 2) \<and>
   \<bar>1 - foliageRun TREE_SHAPE [1, 1, 1, 1, 1, 1, 1, 1] 0\<bar> \<le> 0.001 \<and>
   ornamentsRun SCATTERED ([1, 1, 1, 1, 1, 1, 1, 1] @ [1 / 4]) (1 / 2)
     \<le> ornamentsRun SCATTERED [1, 1, 1, 1, 1, 1, 1, 1] (1 / 2) \<and>
   \<bar>1 - ornamentsRun TREE_SHAPE [1, 1, 1, 1, 1, 1, 1, 1] 0\<bar> \<le> 0.001"
proof -
  let ?ds = "[1, 1, 1, 1, 1, 1, 1, 1 :: real]"
  have h: "(0 :: real) \<le> 1 / 2" "(1 / 2 :: real) \<le> 1" "(0 :: real) \<le> 1 / 4"
    "\<forall>e\<in>set ?ds. 0 \<le> e" by simp_all
  have h5: "1 \<le> 1.5 * sum_list ?ds" by simp
  have h6: "(1 / 4 :: real) \<le> 1 \<and> (\<forall>e\<in>set ?ds. e \<le> 1)" by simp
  have h7: "8 \<le> sum_list ?ds" by simp
  from controllers_interruption [OF h, of SCATTERED] h5 h6 h7 show ?thesis by blast
qed

text \<open>
  C7 fails for the ornaments on a long frame. With the target \<open>0\<close> and the progress
  \<open>1/2\<close>, a frame of three seconds (the tab was hidden) takes \<open>animProgress\<close> to
  \<open>- 1\<close>: past the target and out of \<open>[0, 1]\<close>, with the eased value \<open>2\<close>; the
  next frame, of a tenth of a second, raises it to \<open>- 9/10\<close>. The foliage, on the same
  frames, goes to \<open>0\<close> and stays.
\<close>

theorem ornaments_long_frame:
  "ornamentsRun SCATTERED [3] (1 / 2) = - 1 \<and>
   ornamentsRun SCATTERED [3, 1 / 10] (1 / 2) = - 9 / 10 \<and>
   easeT (ornamentsRun SCATTERED [3] (1 / 2)) = 2 \<and>
   foliageRun SCATTERED [3] (1 / 2) = 0 \<and>
   foliageRun SCATTERED [3, 1 / 10] (1 / 2) = 0"
  by (simp add: ornamentsRun_def ornamentsStep_def foliageRun_def foliageStep_def easeT_def)

section \<open>Disabling the camera\<close>

lemmas tracker_defs =
  run_def initialTracker_def enabledEffect_def startWebcam_def stopWebcam_def
  streamGranted_def streamDenied_def predictWebcam_def

lemma handSample_fistFrame: "handSample (detected (fistFrame time)) = Some fistSample"
  by (simp add: fistFrame_def fistSample_def hand_eval)

text \<open>A frame without a hand gives the reset sample.\<close>

lemma handSample_no_hand: "handSample [] = Some resetSample"
  by (simp add: handSample_def resetSample_def)

text \<open>
  The effect of a render with \<open>isEnabled = false\<close> emits the reset sample, forgets the
  stream, detaches the video and cancels the request whose handle \<open>requestRef\<close> holds.
\<close>

lemma disable_effect:
  "emitted (enabledEffect (n, False) st) = emitted st @ [resetSample] \<and>
   \<not> streamRef (enabledEffect (n, False) st) \<and>
   \<not> srcObject (enabledEffect (n, False) st) \<and>
   (requestRef st \<noteq> 0 \<longrightarrow>
      requestRef st \<notin> fst ` set (scheduled (enabledEffect (n, False) st)))"
  by (auto simp add: enabledEffect_def stopWebcam_def Let_def)

text \<open>
  In the usual order of events (the model loads, the camera is granted, the loop runs)
  disabling stops the loop: the fist shown afterwards is not reported.
\<close>

lemma disable_in_order:
  "emitted (run [Mount True, ModelLoaded, StreamGranted, LoadedData (fistFrame 0),
                 SetEnabled False, AnimationFrame (fistFrame 1)]) = [fistSample, resetSample] \<and>
   scheduled (run [Mount True, ModelLoaded, StreamGranted, LoadedData (fistFrame 0),
                   SetEnabled False, AnimationFrame (fistFrame 1)]) = []"
  by (simp add: tracker_defs handSample_fistFrame Let_def) (simp add: fistFrame_def)

text \<open>
  C9 fails when the camera is disabled while the model still loads. The component mounts
  enabled; the camera is disabled (the reset sample is emitted); then the model arrives,
  and \<open>initHandLandmarker\<close>, which still reads the \<open>isEnabled\<close> of the first render, starts
  the camera; the stream is granted and the video fires \<open>loadeddata\<close> with a fist in
  view. \<open>predictWebcam\<close> of the first render reads the same \<open>isEnabled\<close>: it emits the
  sample of the fist after the reset sample and requests the next frame, while the latest
  render has \<open>isEnabled = false\<close>; the sample takes the scene from \<open>SCATTERED\<close> to
  \<open>TREE_SHAPE\<close>.
\<close>

theorem disable_while_loading:
  "snd (rendered (run [Mount True, SetEnabled False, ModelLoaded, StreamGranted,
                       LoadedData (fistFrame 0)])) = False \<and>
   emitted (run [Mount True, SetEnabled False, ModelLoaded, StreamGranted,
                 LoadedData (fistFrame 0)]) = [resetSample, fistSample] \<and>
   scheduled (run [Mount True, SetEnabled False, ModelLoaded, StreamGranted,
                   LoadedData (fistFrame 0)]) = [(1, (0, True))] \<and>
   treeState (fst (feed initialApp [resetSample, fistSample])) = TREE_SHAPE"
proof -
  have "treeState (fst (feed initialApp [resetSample, fistSample])) = TREE_SHAPE"
    by (simp add: onSample_treeState fistSample_def resetSample_def split_beta)
  moreover have
    "snd (rendered (run [Mount True, SetEnabled False, ModelLoaded, StreamGranted,
                         LoadedData (fistFrame 0)])) = False \<and>
     emitted (run [Mount True, SetEnabled False, ModelLoaded, StreamGranted,
                   LoadedData (fistFrame 0)]) = [resetSample, fistSample] \<and>
     scheduled (run [Mount True, SetEnabled False, ModelLoaded, StreamGranted,
                     LoadedData (fistFrame 0)]) = [(1, (0, True))]"
    by (simp add: tracker_defs handSample_fistFrame Let_def) (simp add: fistFrame_def)
  ultimately show ?thesis by blast
qed


end
